theory Spec2Isabelle
  imports Complex_Main "HOL-Library.Multiset" "HOL-Library.Product_Lexorder"
begin

section \<open>Feature selection notebook: data frames, ranking and pruning\<close>

text \<open>
  A pandas data frame is modelled by its columns in order: each column is a pair of its
  label and the list of its values. Labels may repeat, so the frame is an association
  list and not a map. For the pruning the importance scores are real numbers (the frame
  after the call does not depend on the outcome of any comparison); for the ranking they
  are Python floats, with the infinities and NaN.
\<close>

type_synonym 'v dataframe = "(string \<times> 'v list) list"

datatype py_error = KeyError | IndexError | NameError | AttributeError | AssertionError
  | WaiterError | UnexpectedStatusException

definition columns :: "'v dataframe \<Rightarrow> string list" where
  "columns data = map fst data"

text \<open>
  \<^verbatim>\<open>data.drop(labels, axis=1, inplace=...)\<close>: raises KeyError when a label is not a
  column of the frame. Otherwise, with \<^verbatim>\<open>inplace=False\<close> (the default) the frame is left
  as it is and a new frame without the labelled columns is returned; with
  \<^verbatim>\<open>inplace=True\<close> the frame itself loses the columns and None is returned. The result
  is the pair of the frame after the call and the returned value.
\<close>

definition drop_columns ::
  "string list \<Rightarrow> bool \<Rightarrow> 'v dataframe \<Rightarrow> py_error + ('v dataframe \<times> 'v dataframe option)" where
  "drop_columns labels inplace data =
     (if \<not> set labels \<subseteq> set (columns data) then Inl KeyError
      else let result = filter (\<lambda>c. fst c \<notin> set labels) data
           in if inplace then Inr (result, None) else Inr (data, Some result))"

text \<open>
  The loop of \<^verbatim>\<open>remove_features\<close> over \<^verbatim>\<open>enumerate(list(zip(data.columns, lst)))\<close>,
  appending the label of every pair whose score is at most the threshold.
\<close>

fun features_below :: "(string \<times> real) list \<Rightarrow> real \<Rightarrow> string list \<Rightarrow> string list" where
  "features_below [] threshold features_to_remove = features_to_remove"
| "features_below (pair # pairs) threshold features_to_remove =
     features_below pairs threshold
       (if snd pair \<le> threshold then features_to_remove @ [fst pair] else features_to_remove)"

text \<open>
  \<^verbatim>\<open>remove_features(lst, data, threshold)\<close> returns None; the model returns the frame
  \<^verbatim>\<open>data\<close> as it is after the call. The call of \<^verbatim>\<open>data.drop\<close> passes no
  \<^verbatim>\<open>inplace\<close> argument and its returned frame is not bound to anything.
\<close>

definition remove_features :: "real list \<Rightarrow> 'v dataframe \<Rightarrow> real \<Rightarrow> py_error + 'v dataframe" where
  "remove_features lst data threshold =
     (let features_to_remove = features_below (zip (columns data) lst) threshold []
      in if features_to_remove \<noteq> [] then
           (case drop_columns features_to_remove False data of
              Inl e \<Rightarrow> Inl e
            | Inr (data', returned) \<Rightarrow> Inr data')
         else Inr data)"

text \<open>
  The pruning cell: three calls in a row, on the training, validation and test frames,
  with the same scores and threshold. An exception ends the cell.
\<close>

definition prune_cell ::
  "real list \<Rightarrow> real \<Rightarrow> 'v dataframe \<times> 'v dataframe \<times> 'v dataframe \<Rightarrow>
     py_error + ('v dataframe \<times> 'v dataframe \<times> 'v dataframe)" where
  "prune_cell scores threshold frames =
     (case frames of (X_train, X_val, X_test) \<Rightarrow>
        (case remove_features scores X_train threshold of
           Inl e \<Rightarrow> Inl e
         | Inr X_train' \<Rightarrow>
             (case remove_features scores X_val threshold of
                Inl e \<Rightarrow> Inl e
              | Inr X_val' \<Rightarrow>
                  (case remove_features scores X_test threshold of
                     Inl e \<Rightarrow> Inl e
                   | Inr X_test' \<Rightarrow> Inr (X_train', X_val', X_test')))))"

text \<open>
  A Python float: a real number, an infinity or NaN. \<^verbatim>\<open><\<close> and \<^verbatim>\<open><=\<close> are false
  as soon as one side is NaN.
\<close>

datatype pyfloat = NegInf | Num real | PosInf | NaN

fun py_lt :: "pyfloat \<Rightarrow> pyfloat \<Rightarrow> bool" where
  "py_lt NaN y = False"
| "py_lt x NaN = False"
| "py_lt x NegInf = False"
| "py_lt NegInf y = True"
| "py_lt PosInf y = False"
| "py_lt x PosInf = True"
| "py_lt (Num a) (Num b) = (a < b)"

fun py_le :: "pyfloat \<Rightarrow> pyfloat \<Rightarrow> bool" where
  "py_le NaN y = False"
| "py_le x NaN = False"
| "py_le NegInf y = True"
| "py_le x PosInf = True"
| "py_le x NegInf = False"
| "py_le PosInf y = False"
| "py_le (Num a) (Num b) = (a \<le> b)"

text \<open>
  Python's \<^verbatim>\<open>sorted\<close> is \<^verbatim>\<open>list.sort\<close> on a copy, and it compares with
  \<^verbatim>\<open><\<close> only. On fewer than 64 elements \<^verbatim>\<open>list.sort\<close> works as follows: it
  takes the longest run at the start of the list that is either non-descending or strictly
  descending (\<^verbatim>\<open>count_run\<close>), reverses the run if it is descending, and inserts
  each remaining element into the sorted part at the place found by bisection
  (\<^verbatim>\<open>binarysort\<close>). Longer lists are cut into such runs, which are then merged; the
  model sorts them as the short ones, which gives the same list whenever the keys are
  totally ordered, a stable sort being unique then.
\<close>

fun asc_run :: "('a \<Rightarrow> 'a \<Rightarrow> bool) \<Rightarrow> 'a \<Rightarrow> 'a list \<Rightarrow> nat" where
  "asc_run lt prev [] = 0"
| "asc_run lt prev (x # xs) = (if lt x prev then 0 else Suc (asc_run lt x xs))"

fun desc_run :: "('a \<Rightarrow> 'a \<Rightarrow> bool) \<Rightarrow> 'a \<Rightarrow> 'a list \<Rightarrow> nat" where
  "desc_run lt prev [] = 0"
| "desc_run lt prev (x # xs) = (if lt x prev then Suc (desc_run lt x xs) else 0)"

text \<open>The length of the initial run and whether it is descending.\<close>

fun count_run :: "('a \<Rightarrow> 'a \<Rightarrow> bool) \<Rightarrow> 'a list \<Rightarrow> nat \<times> bool" where
  "count_run lt [] = (0, False)"
| "count_run lt [x] = (1, False)"
| "count_run lt (x0 # x1 # xs) =
     (if lt x1 x0 then (2 + desc_run lt x1 xs, True) else (2 + asc_run lt x1 xs, False))"

text \<open>
  The bisection of \<^verbatim>\<open>binarysort\<close>: the place of the pivot among \<open>ys\<close>, searched
  between the positions \<open>l\<close> and \<open>r\<close>. It is only called with \<open>r\<close> at most the length
  of \<open>ys\<close>, so every position read is in range.
\<close>

function bisect :: "('a \<Rightarrow> 'a \<Rightarrow> bool) \<Rightarrow> 'a \<Rightarrow> 'a list \<Rightarrow> nat \<Rightarrow> nat \<Rightarrow> nat" where
  "bisect lt pivot ys l r =
     (if l < r then
        (let p = l + (r - l) div 2
         in if lt pivot (ys ! p) then bisect lt pivot ys l p else bisect lt pivot ys (Suc p) r)
      else l)"
  by pat_completeness auto
termination
  by (relation "measure (\<lambda>(lt, pivot, ys, l, r). r - l)") auto

declare bisect.simps [simp del]

fun binarysort :: "('a \<Rightarrow> 'a \<Rightarrow> bool) \<Rightarrow> 'a list \<Rightarrow> 'a list \<Rightarrow> 'a list" where
  "binarysort lt run [] = run"
| "binarysort lt run (pivot # rest) =
     (let l = bisect lt pivot run 0 (length run)
      in binarysort lt (take l run @ pivot # drop l run) rest)"

definition list_sort :: "('a \<Rightarrow> 'a \<Rightarrow> bool) \<Rightarrow> 'a list \<Rightarrow> 'a list" where
  "list_sort lt xs =
     (case count_run lt xs of
        (n, descending) \<Rightarrow>
          binarysort lt (if descending then rev (take n xs) else take n xs) (drop n xs))"

text \<open>
  \<^verbatim>\<open>sorted(xs, key=key, reverse=reverse)\<close> for float keys: the elements are compared
  by their keys, and with \<^verbatim>\<open>reverse=True\<close> the list is reversed before and after the
  sort, so that equal keys keep their original order.
\<close>

definition sorted_py :: "('a \<Rightarrow> pyfloat) \<Rightarrow> bool \<Rightarrow> 'a list \<Rightarrow> 'a list" where
  "sorted_py key reverse xs =
     (let lt = (\<lambda>a b. py_lt (key a) (key b))
      in if reverse then rev (list_sort lt (rev xs)) else list_sort lt xs)"

text \<open>
  \<^verbatim>\<open>show_ranked_feature_importance_list(scores, data)\<close> prints the ranked list as a
  two-column frame; the model returns the ranked list that is printed.
\<close>

definition show_ranked_feature_importance_list ::
  "pyfloat list \<Rightarrow> 'v dataframe \<Rightarrow> (string \<times> pyfloat) list" where
  "show_ranked_feature_importance_list scores data =
     (let lst = zip (columns data) scores;
          ranked_lst = sorted_py snd True lst
      in ranked_lst)"

text \<open>
  The floats other than NaN are linearly ordered; \<open>rank\<close> places them in a linear order
  (pairs, compared lexicographically).
\<close>

fun rank :: "pyfloat \<Rightarrow> nat \<times> real" where
  "rank NegInf = (0, 0)"
| "rank (Num a) = (1, a)"
| "rank PosInf = (2, 0)"
| "rank NaN = (3, 0)"

section \<open>Scheduling notebook: the two pipelines\<close>

text \<open>
  The step classes of the workflow library that the notebook instantiates, with the
  arguments that name other objects of the notebook. The notebook's text says that
  conditional steps are possible as well; none is built.
\<close>

datatype step =
    ProcessingStep (step_name: string) (processor: string) (code: string)
  | TrainingStep (step_name: string) (estimator: string)
  | CreateModelStep (step_name: string) (model: string)
  | TransformStep (step_name: string) (transformer: string)
  | ConditionStep (step_name: string)

datatype step_kind = Processing | Training | CreateModel | Transform | Condition

fun kind_of :: "step \<Rightarrow> step_kind" where
  "kind_of (ProcessingStep n p c) = Processing"
| "kind_of (TrainingStep n e) = Training"
| "kind_of (CreateModelStep n m) = CreateModel"
| "kind_of (TransformStep n t) = Transform"
| "kind_of (ConditionStep n) = Condition"

text \<open>A pipeline as the constructor receives it; parameters are kept by their variable names.\<close>

record pipeline =
  pipeline_name :: string
  parameters :: "string list"
  steps :: "step list"

definition step_process :: step where
  "step_process =
     ProcessingStep ''scheduled-pipeline-sklearn-process'' ''sklearn_processor'' ''./preprocessing.py''"

definition step_train :: step where
  "step_train = TrainingStep ''scheduled-pipeline-sklearn-training'' ''sklearn_estimator''"

definition step_create_model :: step where
  "step_create_model = CreateModelStep ''scheduled-pipeline-sklearn-createmodel'' ''model''"

definition transformer_step :: step where
  "transformer_step = TransformStep ''scheduled-pipeline-sklearn-transformer'' ''transformer''"

definition pipeline_training :: pipeline where
  "pipeline_training =
     \<lparr>pipeline_name = ''sklearn-scheduled-training'',
      parameters = [''input_data'', ''processing_instance_type'', ''processing_instance_count'',
        ''training_instance_type'', ''training_instance_count'', ''batch_instance_type'',
        ''batch_instance_count''],
      steps = [step_process, step_train, step_create_model]\<rparr>"

definition pipeline_inference :: pipeline where
  "pipeline_inference =
     \<lparr>pipeline_name = ''sklearn-scheduled-inference'',
      parameters = [''model_name'', ''test_data'', ''output_path'', ''batch_instance_type'',
        ''batch_instance_count''],
      steps = [transformer_step]\<rparr>"

text \<open>Every \<^verbatim>\<open>Pipeline\<close> object the notebook constructs, in the order of construction.\<close>

definition pipelines :: "pipeline list" where
  "pipelines = [pipeline_training, pipeline_inference]"

section \<open>Tuning notebook: ranges and tuners\<close>

record continuous_parameter =
  min_value :: real
  max_value :: real
  scaling_type :: string

text \<open>
  The arguments of \<^verbatim>\<open>HyperparameterTuner(...)\<close>. The ranges are a dictionary literal,
  kept as an association list in the order written.
\<close>

record hyperparameter_tuner =
  tuner_estimator :: string
  tuner_objective_metric_name :: string
  tuner_hyperparameter_ranges :: "(string \<times> continuous_parameter) list"
  max_jobs :: nat
  max_parallel_jobs :: nat
  strategy :: string

definition hyperparameter_ranges :: "(string \<times> continuous_parameter) list" where
  "hyperparameter_ranges =
     [(''alpha'', \<lparr>min_value = 0.01, max_value = 10, scaling_type = ''Logarithmic''\<rparr>),
      (''lambda'', \<lparr>min_value = 0.01, max_value = 10, scaling_type = ''Logarithmic''\<rparr>)]"

definition hyperparameter_ranges_linear :: "(string \<times> continuous_parameter) list" where
  "hyperparameter_ranges_linear =
     [(''alpha'', \<lparr>min_value = 0.01, max_value = 10, scaling_type = ''Linear''\<rparr>),
      (''lambda'', \<lparr>min_value = 0.01, max_value = 10, scaling_type = ''Linear''\<rparr>)]"

definition tuner_log :: hyperparameter_tuner where
  "tuner_log =
     \<lparr>tuner_estimator = ''xgb'',
      tuner_objective_metric_name = ''validation:auc'',
      tuner_hyperparameter_ranges = hyperparameter_ranges,
      max_jobs = 5,
      max_parallel_jobs = 5,
      strategy = ''Random''\<rparr>"

definition tuner_linear :: hyperparameter_tuner where
  "tuner_linear =
     \<lparr>tuner_estimator = ''xgb'',
      tuner_objective_metric_name = ''validation:auc'',
      tuner_hyperparameter_ranges = hyperparameter_ranges_linear,
      max_jobs = 5,
      max_parallel_jobs = 5,
      strategy = ''Random''\<rparr>"

text \<open>Every \<^verbatim>\<open>HyperparameterTuner\<close> the notebooks construct.\<close>

definition tuners :: "hyperparameter_tuner list" where
  "tuners = [tuner_log, tuner_linear]"

section \<open>Tuning notebook: the three-way split of the data\<close>

text \<open>
  The split points are \<^verbatim>\<open>int(0.7 * len(model_data))\<close> and
  \<^verbatim>\<open>int(0.9 * len(model_data))\<close>: products of a double-precision constant and the
  length converted to a double, truncated. Doubles are binary64 with round to nearest, ties
  to even. A positive double is \<open>m / 2 ^ e\<close> for a natural \<open>m\<close> of at most 53 bits; the
  literal 0.7 is \<open>3152519739159347 / 2 ^ 52\<close> and 0.9 is \<open>8106479329266893 / 2 ^ 53\<close>.
\<close>

text \<open>\<^verbatim>\<open>int.bit_length\<close>: the number of binary digits of a natural number.\<close>

fun bit_length :: "nat \<Rightarrow> nat" where
  "bit_length n = (if n = 0 then 0 else Suc (bit_length (n div 2)))"

declare bit_length.simps [simp del]

text \<open>
  Rounding a natural number to 53 significant bits, to nearest and ties to even: the
  rounding of an exact result to a double, for results in the normal range (and the
  conversion of a Python integer to a double).
\<close>

definition round_sig :: "nat \<Rightarrow> nat" where
  "round_sig M =
     (let b = bit_length M
      in if b \<le> 53 then M
         else let s = b - 53; q = M div 2 ^ s; r = M mod 2 ^ s; h = 2 ^ (s - 1)
              in (if h < r \<or> (r = h \<and> odd q) then q + 1 else q) * 2 ^ s)"

text \<open>The double constants, as mantissa and negated exponent.\<close>

definition double_0_7 :: "nat \<times> nat" where
  "double_0_7 = (3152519739159347, 52)"

definition double_0_9 :: "nat \<times> nat" where
  "double_0_9 = (8106479329266893, 53)"

text \<open>
  \<^verbatim>\<open>int(c * n)\<close> for a double constant \<open>c\<close> and a length \<open>n\<close>: the length is
  converted to a double, the product is rounded to a double, and \<^verbatim>\<open>int\<close> truncates.
\<close>

definition int_of_product :: "nat \<times> nat \<Rightarrow> nat \<Rightarrow> nat" where
  "int_of_product c n = round_sig (fst c * round_sig n) div 2 ^ snd c"

text \<open>
  For the split a frame is taken by rows: each row is the pair of its index label and its
  values. \<^verbatim>\<open>read_csv\<close> labels the rows 0, 1, 2, ...; \<open>range_frame n\<close> is such a
  frame of \<open>n\<close> rows without columns.
\<close>

type_synonym 'v row_frame = "(nat \<times> 'v list) list"

definition range_frame :: "nat \<Rightarrow> 'v row_frame" where
  "range_frame n = map (\<lambda>i. (i, [])) [0..<n]"

text \<open>
  \<^verbatim>\<open>model_data.sample(frac=1, random_state=1729)\<close> draws the positions of all rows
  without replacement and takes the rows at these positions. The positions drawn by the
  random generator are the parameter \<open>locs\<close>; taking a position out of range raises.
\<close>

definition sample_all :: "nat list \<Rightarrow> 'v row_frame \<Rightarrow> py_error + 'v row_frame" where
  "sample_all locs frame =
     (if list_all (\<lambda>i. i < length frame) locs then Inr (map (\<lambda>i. frame ! i) locs)
      else Inl IndexError)"

text \<open>
  \<^verbatim>\<open>np.split(ary, [i1, i2])\<close>: the slices \<^verbatim>\<open>ary[:i1]\<close>, \<^verbatim>\<open>ary[i1:i2]\<close> and
  \<^verbatim>\<open>ary[i2:]\<close>.
\<close>

definition np_split3 :: "'a list \<Rightarrow> nat \<Rightarrow> nat \<Rightarrow> 'a list \<times> 'a list \<times> 'a list" where
  "np_split3 ary i1 i2 = (take i1 ary, drop i1 (take i2 ary), drop i2 ary)"

text \<open>The statement that binds \<^verbatim>\<open>train_data, validation_data, test_data\<close>.\<close>

definition split_data ::
  "nat list \<Rightarrow> 'v row_frame \<Rightarrow> py_error + ('v row_frame \<times> 'v row_frame \<times> 'v row_frame)" where
  "split_data locs model_data =
     (case sample_all locs model_data of
        Inl e \<Rightarrow> Inl e
      | Inr shuffled \<Rightarrow>
          Inr (np_split3 shuffled
                 (int_of_product double_0_7 (length model_data))
                 (int_of_product double_0_9 (length model_data))))"

text \<open>The numbers of rows of the three parts.\<close>

definition split_sizes :: "nat list \<Rightarrow> 'v row_frame \<Rightarrow> py_error + (nat \<times> nat \<times> nat)" where
  "split_sizes locs model_data =
     (case split_data locs model_data of
        Inl e \<Rightarrow> Inl e
      | Inr (train_data, validation_data, test_data) \<Rightarrow>
          Inr (length train_data, length validation_data, length test_data))"

section \<open>The notebooks as sequences of operations\<close>

text \<open>
  A notebook is a list of cells and a cell is a list of statements, executed in the order
  written. The statements of the three notebooks fall into a few kinds: computations on
  local data, constructions of configuration values and objects, and calls of the vendor
  library that define a pipeline, submit a job, wait for it, ask for its status, read its
  results, or plot. Each kind is a function on the state of the kernel, which consists of
  the objects bound to the variables through which jobs are reached (pipelines,
  executions, tuners, statuses and result frames) and of the trace of the operations
  performed so far. Plain values and configuration objects are not kept in the state:
  that each of them is constructed before it is used is a property of the trace, stated
  below, and not built into the statements.

  The vendor service is a parameter: it decides whether a wait raises (the wait on a
  pipeline execution, and the wait that fitting a tuner performs on its tuning job) and
  which status each describe call returns. The other vendor calls are taken to return.
  An exception ends the cell in which it is raised; what happens to the remaining cells
  depends on how the notebook is run: a run of all cells stops at the first failing cell,
  while cells run one at a time continue with the next one (the recorded outputs of the
  scheduling notebook show the latter: the describe cell ran after the wait had raised).
\<close>

text \<open>The two pipeline executions and the two tuning jobs that the notebooks submit.\<close>

datatype job = TrainingExecution | InferenceExecution | TuningLog | TuningLinear

text \<open>What a variable of the kernel can be bound to.\<close>

datatype obj =
    PipelineObj job
  | ExecutionObj job
  | TunerObj job
  | StatusObj string
  | ResultsObj "job list"

text \<open>
  The observable operations: a value or configuration object is constructed from earlier
  ones, a pipeline definition is sent, a job is submitted with the objects it consumes, a
  wait (with whether it raised), a describe (with the status returned), a read of tuning
  results, a plot (of the results of the listed jobs), and any other command.
\<close>

datatype event =
    Construct string "string list"
  | Upsert job "string list"
  | Submit job "string list"
  | Wait job bool
  | Describe job string
  | Analytics job
  | Plot "job list"
  | Other string

record kernel =
  store :: "(string \<times> obj) list"
  trace :: "event list"

text \<open>
  The service: whether the wait on a job raises, and the status that the \<open>n\<close>-th
  describe of a job returns (counted from 0). Nothing relates the two: a wait may raise
  for a job that a later describe reports as completed.
\<close>

record service =
  wait_raises :: "job \<Rightarrow> bool"
  job_status :: "job \<Rightarrow> nat \<Rightarrow> string"

type_synonym stmt = "service \<Rightarrow> kernel \<Rightarrow> kernel \<times> py_error option"

definition emit :: "event list \<Rightarrow> (string \<times> obj) list \<Rightarrow> kernel \<Rightarrow> kernel" where
  "emit evs binds k = k\<lparr>store := binds @ store k, trace := trace k @ evs\<rparr>"

fun is_submit :: "job \<Rightarrow> event \<Rightarrow> bool" where
  "is_submit j (Submit j' uses) = (j' = j)"
| "is_submit j e = False"

fun is_describe :: "job \<Rightarrow> event \<Rightarrow> bool" where
  "is_describe j (Describe j' st) = (j' = j)"
| "is_describe j e = False"

definition describes_so_far :: "kernel \<Rightarrow> job \<Rightarrow> nat" where
  "describes_so_far k j = length (filter (is_describe j) (trace k))"

definition submitted :: "kernel \<Rightarrow> job \<Rightarrow> bool" where
  "submitted k j = list_ex (is_submit j) (trace k)"

text \<open>A statement that only computes on local data.\<close>

definition local_stmt :: "string \<Rightarrow> stmt" where
  "local_stmt what svc k = (k, None)"

text \<open>\<^verbatim>\<open>v = C(uses)\<close>: a value or configuration object built from the named ones.\<close>

definition construct :: "string \<Rightarrow> string list \<Rightarrow> stmt" where
  "construct v uses svc k = (emit [Construct v uses] [] k, None)"

text \<open>A shell command or vendor call of no other kind (uploads, endpoint deletion).\<close>

definition other :: "string \<Rightarrow> stmt" where
  "other what svc k = (emit [Other what] [] k, None)"

text \<open>\<^verbatim>\<open>v = session.upload_data(...)\<close>: uploads a file and binds its S3 path.\<close>

definition upload :: "string \<Rightarrow> string list \<Rightarrow> stmt" where
  "upload v uses svc k = (emit [Other ''upload_data'', Construct v uses] [] k, None)"

text \<open>\<^verbatim>\<open>v = Pipeline(...)\<close> and \<^verbatim>\<open>v = HyperparameterTuner(...)\<close>.\<close>

definition construct_pipeline :: "string \<Rightarrow> job \<Rightarrow> string list \<Rightarrow> stmt" where
  "construct_pipeline v j uses svc k = (emit [Construct v uses] [(v, PipelineObj j)] k, None)"

definition construct_tuner :: "string \<Rightarrow> job \<Rightarrow> string list \<Rightarrow> stmt" where
  "construct_tuner v j uses svc k = (emit [Construct v uses] [(v, TunerObj j)] k, None)"

text \<open>\<^verbatim>\<open>pipeline.upsert(role_arn=role)\<close>.\<close>

definition upsert :: "string \<Rightarrow> string list \<Rightarrow> stmt" where
  "upsert p uses svc k =
     (case map_of (store k) p of
        None \<Rightarrow> (k, Some NameError)
      | Some (PipelineObj j) \<Rightarrow> (emit [Upsert j (p # uses)] [] k, None)
      | Some ob \<Rightarrow> (k, Some AttributeError))"

text \<open>\<^verbatim>\<open>execution = pipeline.start(...)\<close>: submits an execution of the pipeline.\<close>

definition start :: "string \<Rightarrow> string \<Rightarrow> string list \<Rightarrow> stmt" where
  "start e p uses svc k =
     (case map_of (store k) p of
        None \<Rightarrow> (k, Some NameError)
      | Some (PipelineObj j) \<Rightarrow> (emit [Submit j (p # uses)] [(e, ExecutionObj j)] k, None)
      | Some ob \<Rightarrow> (k, Some AttributeError))"

text \<open>
  \<^verbatim>\<open>execution.wait()\<close>: raises WaiterError when the execution did not succeed (the
  recorded output of the inference pipeline shows it, for the status "Failed").
\<close>

definition wait :: "string \<Rightarrow> stmt" where
  "wait e svc k =
     (case map_of (store k) e of
        None \<Rightarrow> (k, Some NameError)
      | Some (ExecutionObj j) \<Rightarrow>
          (emit [Wait j (wait_raises svc j)] [] k,
           if wait_raises svc j then Some WaiterError else None)
      | Some ob \<Rightarrow> (k, Some AttributeError))"

text \<open>\<^verbatim>\<open>execution.describe()\<close>.\<close>

definition describe_execution :: "string \<Rightarrow> stmt" where
  "describe_execution e svc k =
     (case map_of (store k) e of
        None \<Rightarrow> (k, Some NameError)
      | Some (ExecutionObj j) \<Rightarrow>
          (emit [Describe j (job_status svc j (describes_so_far k j))] [] k, None)
      | Some ob \<Rightarrow> (k, Some AttributeError))"

text \<open>
  \<^verbatim>\<open>tuner.fit(inputs, ...)\<close>: submits the tuning job of the tuner, which becomes its
  latest job, and then waits for it, since no \<^verbatim>\<open>wait=False\<close> is passed (the recorded
  output of both fit cells is the progress line of this wait). The wait raises
  UnexpectedStatusException when the job did not complete.
\<close>

definition fit :: "string \<Rightarrow> string list \<Rightarrow> stmt" where
  "fit t uses svc k =
     (case map_of (store k) t of
        None \<Rightarrow> (k, Some NameError)
      | Some (TunerObj j) \<Rightarrow>
          (emit [Submit j (t # uses), Wait j (wait_raises svc j)] [] k,
           if wait_raises svc j then Some UnexpectedStatusException else None)
      | Some ob \<Rightarrow> (k, Some AttributeError))"

text \<open>
  \<^verbatim>\<open>v = tuner.latest_tuning_job.job_name + ...\<close>: there is no latest job before the
  tuner has been fitted.
\<close>

definition latest_job_name :: "string \<Rightarrow> string \<Rightarrow> stmt" where
  "latest_job_name v t svc k =
     (case map_of (store k) t of
        None \<Rightarrow> (k, Some NameError)
      | Some (TunerObj j) \<Rightarrow>
          if submitted k j then (emit [Construct v [t]] [] k, None)
          else (k, Some AttributeError)
      | Some ob \<Rightarrow> (k, Some AttributeError))"

text \<open>
  \<^verbatim>\<open>describe_hyper_parameter_tuning_job(HyperParameterTuningJobName=
  tuner.latest_tuning_job.job_name)["HyperParameterTuningJobStatus"]\<close>, bound to a
  variable or only displayed.
\<close>

definition describe_tuning_job :: "string option \<Rightarrow> string \<Rightarrow> stmt" where
  "describe_tuning_job v t svc k =
     (case map_of (store k) t of
        None \<Rightarrow> (k, Some NameError)
      | Some (TunerObj j) \<Rightarrow>
          if submitted k j then
            (let st = job_status svc j (describes_so_far k j)
             in (emit [Describe j st]
                   (case v of None \<Rightarrow> [] | Some name \<Rightarrow> [(name, StatusObj st)]) k, None))
          else (k, Some AttributeError)
      | Some ob \<Rightarrow> (k, Some AttributeError))"

text \<open>\<^verbatim>\<open>assert status == "Completed", ...\<close>.\<close>

definition assert_completed :: "string \<Rightarrow> stmt" where
  "assert_completed v svc k =
     (case map_of (store k) v of
        None \<Rightarrow> (k, Some NameError)
      | Some (StatusObj st) \<Rightarrow> (k, if st = ''Completed'' then None else Some AssertionError)
      | Some ob \<Rightarrow> (k, Some AssertionError))"

text \<open>
  \<^verbatim>\<open>v = sagemaker.HyperparameterTuningJobAnalytics(tuner.latest_tuning_job.job_name)
  .dataframe()\<close>.
\<close>

definition analytics :: "string \<Rightarrow> string \<Rightarrow> stmt" where
  "analytics v t svc k =
     (case map_of (store k) t of
        None \<Rightarrow> (k, Some NameError)
      | Some (TunerObj j) \<Rightarrow>
          if submitted k j then (emit [Analytics j] [(v, ResultsObj [j])] k, None)
          else (k, Some AttributeError)
      | Some ob \<Rightarrow> (k, Some AttributeError))"

text \<open>The jobs whose results the named frames hold; a name that is not bound raises.\<close>

fun results_of :: "kernel \<Rightarrow> string list \<Rightarrow> py_error + job list" where
  "results_of k [] = Inr []"
| "results_of k (u # us) =
     (case map_of (store k) u of
        None \<Rightarrow> Inl NameError
      | Some (ResultsObj js) \<Rightarrow>
          (case results_of k us of Inl e \<Rightarrow> Inl e | Inr js' \<Rightarrow> Inr (js @ js'))
      | Some ob \<Rightarrow> Inl AttributeError)"

text \<open>A frame or grid computed from result frames (\<^verbatim>\<open>pd.concat\<close>, a new column, \<^verbatim>\<open>FacetGrid\<close>).\<close>

definition derive :: "string \<Rightarrow> string list \<Rightarrow> stmt" where
  "derive v uses svc k =
     (case results_of k uses of
        Inl e \<Rightarrow> (k, Some e)
      | Inr js \<Rightarrow> (emit [] [(v, ResultsObj js)] k, None))"

text \<open>A plot of result frames, and a plot of local values.\<close>

definition plot_results :: "string list \<Rightarrow> stmt" where
  "plot_results uses svc k =
     (case results_of k uses of
        Inl e \<Rightarrow> (k, Some e)
      | Inr js \<Rightarrow> (emit [Plot js] [] k, None))"

definition plot_values :: "string list \<Rightarrow> stmt" where
  "plot_values uses svc k = (emit [Plot []] [] k, None)"

text \<open>
  \<^verbatim>\<open>predictor = tuner.deploy(...)\<close>: creates an endpoint for the best training job
  of the tuner. It submits no job of the kinds above and is taken to return.
\<close>

definition deploy :: "string \<Rightarrow> string \<Rightarrow> stmt" where
  "deploy v t svc k =
     (case map_of (store k) t of
        None \<Rightarrow> (k, Some NameError)
      | Some (TunerObj j) \<Rightarrow> (emit [Other ''deploy'', Construct v [t]] [] k, None)
      | Some ob \<Rightarrow> (k, Some AttributeError))"

text \<open>A cell runs its statements in order and ends at the first exception.\<close>

fun run_cell :: "stmt list \<Rightarrow> stmt" where
  "run_cell [] svc k = (k, None)"
| "run_cell (s # ss) svc k =
     (case s svc k of
        (k', None) \<Rightarrow> run_cell ss svc k'
      | (k', Some e) \<Rightarrow> (k', Some e))"

text \<open>
  The cells in order. With \<open>halt\<close> the run stops at the first failing cell; without, the
  error is shown and the next cell runs.
\<close>

fun run_cells :: "bool \<Rightarrow> stmt list list \<Rightarrow> service \<Rightarrow> kernel \<Rightarrow> kernel" where
  "run_cells halt [] svc k = k"
| "run_cells halt (c # cs) svc k =
     (case run_cell c svc k of
        (k', None) \<Rightarrow> run_cells halt cs svc k'
      | (k', Some e) \<Rightarrow> if halt then k' else run_cells halt cs svc k')"

definition run_notebook :: "bool \<Rightarrow> stmt list list \<Rightarrow> service \<Rightarrow> event list" where
  "run_notebook halt cells svc = trace (run_cells halt cells svc \<lparr>store = [], trace = []\<rparr>)"

text \<open>
  The service as the recorded outputs of the notebooks show it: the training execution
  and both tuning jobs complete, the inference execution ends in the status "Failed" and
  its wait raises.
\<close>

definition recorded_service :: service where
  "recorded_service =
     \<lparr>wait_raises = (\<lambda>j. j = InferenceExecution),
      job_status = (\<lambda>j n. if j = InferenceExecution then ''Failed'' else ''Completed'')\<rparr>"

text \<open>The scheduling notebook, cell by cell.\<close>

definition scheduling_notebook :: "stmt list list" where
  "scheduling_notebook =
    [[other ''pip install''],
     [construct ''session'' [],
      construct ''bucket'' [''session''],
      construct ''prefix'' [],
      local_stmt ''X, y = make_classification(...)'',
      local_stmt ''data = pd.concat(...)'',
      local_stmt ''data.to_csv(...)'',
      local_stmt ''X_train, X_test, y_train, y_test = train_test_split(...)'',
      local_stmt ''pd.DataFrame(X_test).to_csv(...)'',
      local_stmt ''pd.DataFrame(y_test).to_csv(...)'',
      upload ''data_path'' [''session'', ''bucket'', ''prefix''],
      upload ''x_test_path'' [''session'', ''bucket'', ''prefix''],
      upload ''y_test_path'' [''session'', ''bucket'', ''prefix''],
      local_stmt ''print(data_path)''],
     [construct ''sess'' [],
      construct ''bucket'' [''sess''],
      construct ''role'' [],
      construct ''region'' []],
     [construct ''input_data'' [''data_path''],
      construct ''processing_instance_type'' [],
      construct ''processing_instance_count'' [],
      construct ''training_instance_type'' [],
      construct ''training_instance_count'' [],
      construct ''batch_instance_type'' [],
      construct ''batch_instance_count'' []],
     [construct ''framework_version'' [],
      construct ''sklearn_processor''
        [''framework_version'', ''processing_instance_type'', ''processing_instance_count'',
         ''sess'', ''role'']],
     [construct ''step_process'' [''sklearn_processor'', ''input_data'']],
     [construct ''sklearn_estimator''
        [''role'', ''training_instance_count'', ''training_instance_type'', ''framework_version'']],
     [construct ''step_train'' [''sklearn_estimator'', ''step_process'']],
     [construct ''model'' [''framework_version'', ''step_train'', ''sess'', ''role''],
      construct ''inputs_model'' [''batch_instance_type''],
      construct ''step_create_model'' [''model'', ''inputs_model'']],
     [construct ''pipeline_name'' [],
      construct_pipeline ''pipeline'' TrainingExecution
        [''pipeline_name'', ''input_data'', ''processing_instance_type'',
         ''processing_instance_count'', ''training_instance_type'', ''training_instance_count'',
         ''batch_instance_type'', ''batch_instance_count'', ''step_process'', ''step_train'',
         ''step_create_model'', ''sess'']],
     [upsert ''pipeline'' [''role''],
      start ''execution'' ''pipeline'' []],
     [wait ''execution''],
     [local_stmt ''step_create_model.properties.ModelName.__dict__''],
     [construct ''model_name'' [],
      construct ''test_data'' [],
      construct ''output_path'' [''bucket'', ''prefix''],
      construct ''batch_instance_type'' [],
      construct ''batch_instance_count'' []],
     [construct ''transformer''
        [''model_name'', ''batch_instance_count'', ''batch_instance_type'', ''output_path'']],
     [construct ''transformer_step'' [''transformer'', ''test_data'']],
     [construct ''pipeline_name'' [],
      construct_pipeline ''pipeline'' InferenceExecution
        [''pipeline_name'', ''model_name'', ''test_data'', ''output_path'',
         ''batch_instance_type'', ''batch_instance_count'', ''transformer_step'', ''sess'']],
     [local_stmt ''definition = json.loads(pipeline.definition())'',
      local_stmt ''JSON(definition)''],
     [upsert ''pipeline'' [''role'']],
     [start ''execution'' ''pipeline'' [''step_create_model'', ''x_test_path''],
      wait ''execution''],
     [describe_execution ''execution''],
     [other ''aws s3 ls'']]"

text \<open>The tuning notebook, cell by cell.\<close>

definition tuning_notebook :: "stmt list list" where
  "tuning_notebook =
    [[construct ''region'' [],
      construct ''smclient'' [],
      construct ''role'' [],
      construct ''bucket'' [],
      construct ''prefix'' []],
     [other ''wget'',
      other ''unzip''],
     [local_stmt ''data = pd.read_csv(...)'',
      local_stmt ''pd.set_option(display.max_columns, 500)'',
      local_stmt ''pd.set_option(display.max_rows, 50)'',
      local_stmt ''data[no_previous_contact] = ...'',
      local_stmt ''data[not_working] = ...'',
      local_stmt ''model_data = pd.get_dummies(data)'',
      local_stmt ''model_data = model_data.drop(...)'',
      local_stmt ''train_data, validation_data, test_data = np.split(...)'',
      local_stmt ''pd.concat(...).to_csv(train.csv)'',
      local_stmt ''pd.concat(...).to_csv(validation.csv)'',
      local_stmt ''pd.concat(...).to_csv(test.csv)'',
      other ''upload_file train.csv'',
      other ''upload_file validation.csv''],
     [construct ''s3_input_train'' [''bucket'', ''prefix''],
      construct ''s3_input_validation'' [''bucket'', ''prefix'']],
     [construct ''sess'' [],
      construct ''container'' [''region''],
      construct ''xgb'' [''container'', ''role'', ''bucket'', ''prefix'', ''sess''],
      construct ''xgb'' [''xgb''],
      construct ''objective_metric_name'' []],
     [construct ''hyperparameter_ranges'' []],
     [construct_tuner ''tuner_log'' TuningLog
        [''xgb'', ''objective_metric_name'', ''hyperparameter_ranges''],
      fit ''tuner_log'' [''s3_input_train'', ''s3_input_validation'']],
     [describe_tuning_job None ''tuner_log''],
     [construct ''hyperparameter_ranges_linear'' [],
      construct_tuner ''tuner_linear'' TuningLinear
        [''xgb'', ''objective_metric_name'', ''hyperparameter_ranges_linear''],
      latest_job_name ''job_name'' ''tuner_log'',
      fit ''tuner_linear'' [''s3_input_train'', ''s3_input_validation'', ''job_name'']],
     [describe_tuning_job None ''tuner_linear''],
     [describe_tuning_job (Some ''status_log'') ''tuner_log'',
      describe_tuning_job (Some ''status_linear'') ''tuner_linear'',
      assert_completed ''status_log'',
      assert_completed ''status_linear'',
      analytics ''df_log'' ''tuner_log'',
      analytics ''df_linear'' ''tuner_linear'',
      derive ''df_log'' [''df_log''],
      derive ''df_linear'' [''df_linear''],
      derive ''df'' [''df_log'', ''df_linear'']],
     [derive ''g'' [''df''],
      plot_results [''g'']],
     [deploy ''predictor'' ''tuner_linear''],
     [other ''delete_endpoint'']]"

text \<open>The feature selection notebook, cell by cell; it submits no job.\<close>

definition feature_selection_notebook :: "stmt list list" where
  "feature_selection_notebook =
    [[other ''pip install'',
      construct ''session'' [],
      construct ''role'' [],
      local_stmt ''print(role)''],
     [local_stmt ''%store -r X_train'',
      local_stmt ''%store -r X_test'',
      local_stmt ''%store -r X_val''],
     [local_stmt ''X_data, y_label = make_regression(...)'',
      local_stmt ''xgboost_model = XGBRegressor()'',
      local_stmt ''xgboost_model.fit(X_data, y_label)'',
      local_stmt ''feature_importances_xgboost = xgboost_model.feature_importances_'',
      local_stmt ''print loop''],
     [local_stmt ''def create_bar_plot''],
     [plot_values [''feature_importances_xgboost'', ''X_train'']],
     [local_stmt ''def show_ranked_feature_importance_list''],
     [local_stmt ''show_ranked_feature_importance_list(feature_importances_xgboost, X_train)''],
     [local_stmt ''X_data, y_label = make_regression(...)'',
      local_stmt ''k_nn_model = KNeighborsRegressor()'',
      local_stmt ''k_nn_model.fit(X_data, y_label)'',
      local_stmt ''feature_importances_permutations = permutation_importance(...)'',
      local_stmt ''print loop''],
     [plot_values [''feature_importances_permutations'', ''X_train'']],
     [local_stmt ''show_ranked_feature_importance_list(feature_importances_permutations, X_train)''],
     [local_stmt ''threshold = 0.01''],
     [local_stmt ''def remove_features''],
     [local_stmt ''remove_features(lst=feature_importances_xgboost, data=X_train, threshold=threshold)'',
      local_stmt ''remove_features(lst=feature_importances_xgboost, data=X_val, threshold=threshold)'',
      local_stmt ''remove_features(lst=feature_importances_xgboost, data=X_test, threshold=threshold)''],
     [local_stmt ''%store X_train'',
      local_stmt ''%store X_test'',
      local_stmt ''%store X_val'']]"

text \<open>
  Construct: every object consumed by a construction, a pipeline definition or a
  submission has been constructed earlier in the trace.
\<close>

fun constructed_before_use :: "string list \<Rightarrow> event list \<Rightarrow> bool" where
  "constructed_before_use seen [] = True"
| "constructed_before_use seen (Construct v uses # es) =
     (list_all (\<lambda>u. u \<in> set seen) uses \<and> constructed_before_use (v # seen) es)"
| "constructed_before_use seen (Upsert j uses # es) =
     (list_all (\<lambda>u. u \<in> set seen) uses \<and> constructed_before_use seen es)"
| "constructed_before_use seen (Submit j uses # es) =
     (list_all (\<lambda>u. u \<in> set seen) uses \<and> constructed_before_use seen es)"
| "constructed_before_use seen (e # es) = constructed_before_use seen es"

text \<open>Poll: every submission is followed by a wait or a describe of the same job.\<close>

fun polls :: "job \<Rightarrow> event \<Rightarrow> bool" where
  "polls j (Wait j' raised) = (j' = j)"
| "polls j (Describe j' st) = (j' = j)"
| "polls j e = False"

fun followed_by_poll :: "event list \<Rightarrow> bool" where
  "followed_by_poll [] = True"
| "followed_by_poll (Submit j uses # es) = (list_ex (polls j) es \<and> followed_by_poll es)"
| "followed_by_poll (e # es) = followed_by_poll es"

text \<open>
  Analyze: results are read or plotted only for jobs for which a describe has returned
  "Completed" earlier in the trace.
\<close>

fun analysis_after_completed :: "job list \<Rightarrow> event list \<Rightarrow> bool" where
  "analysis_after_completed seen [] = True"
| "analysis_after_completed seen (Describe j st # es) =
     analysis_after_completed (if st = ''Completed'' then j # seen else seen) es"
| "analysis_after_completed seen (Analytics j # es) =
     (j \<in> set seen \<and> analysis_after_completed seen es)"
| "analysis_after_completed seen (Plot js # es) =
     (list_all (\<lambda>j. j \<in> set seen) js \<and> analysis_after_completed seen es)"
| "analysis_after_completed seen (e # es) = analysis_after_completed seen es"

text \<open>No job is submitted, or its pipeline sent, again after it has been submitted.\<close>

fun resubmits :: "job \<Rightarrow> event \<Rightarrow> bool" where
  "resubmits j (Submit j' uses) = (j' = j)"
| "resubmits j (Upsert j' uses) = (j' = j)"
| "resubmits j e = False"

fun no_resubmission :: "event list \<Rightarrow> bool" where
  "no_resubmission [] = True"
| "no_resubmission (Submit j uses # es) = (\<not> list_ex (resubmits j) es \<and> no_resubmission es)"
| "no_resubmission (e # es) = no_resubmission es"

text \<open>The order construct, submit, poll, analyze of a trace.\<close>

definition construct_submit_poll_analyze :: "event list \<Rightarrow> bool" where
  "construct_submit_poll_analyze tr \<longleftrightarrow>
     constructed_before_use [] tr \<and> followed_by_poll tr \<and> analysis_after_completed [] tr"

text \<open>
  After a wait on a pipeline execution has raised, the only later operation on that
  execution is a describe.
\<close>

fun mentions :: "job \<Rightarrow> event \<Rightarrow> bool" where
  "mentions j (Upsert j' uses) = (j' = j)"
| "mentions j (Submit j' uses) = (j' = j)"
| "mentions j (Wait j' raised) = (j' = j)"
| "mentions j (Describe j' st) = (j' = j)"
| "mentions j (Analytics j') = (j' = j)"
| "mentions j (Plot js) = (j \<in> set js)"
| "mentions j e = False"

fun only_describe_after_failure :: "event list \<Rightarrow> bool" where
  "only_describe_after_failure [] = True"
| "only_describe_after_failure (Wait j raised # es) =
     ((if raised then list_all (\<lambda>e. if mentions j e then is_describe j e else True) es else True)
      \<and> only_describe_after_failure es)"
| "only_describe_after_failure (e # es) = only_describe_after_failure es"

text \<open>
  A failure adds no operation: whatever the service answers, the operations of a run,
  leaving aside the outcome of each wait and the status of each describe, are a
  subsequence of the operations of the run in which every wait returns and every describe
  reports "Completed". A retry, a resubmission or any other step taken because of a
  failure would be an operation that the run without failures does not have.
\<close>

fun action :: "event \<Rightarrow> event" where
  "action (Wait j raised) = Wait j False"
| "action (Describe j st) = Describe j []"
| "action e = e"

fun is_subsequence :: "'a list \<Rightarrow> 'a list \<Rightarrow> bool" where
  "is_subsequence [] ys = True"
| "is_subsequence (x # xs) [] = False"
| "is_subsequence (x # xs) (y # ys) =
     (if x = y then is_subsequence xs ys else is_subsequence (x # xs) ys)"

definition all_succeed :: service where
  "all_succeed = \<lparr>wait_raises = (\<lambda>j. False), job_status = (\<lambda>j n. ''Completed'')\<rparr>"

definition adds_nothing :: "event list \<Rightarrow> event list \<Rightarrow> bool" where
  "adds_nothing tr script \<longleftrightarrow> is_subsequence (map action tr) (map action script)"


definition all_checks :: "event list \<Rightarrow> event list \<Rightarrow> bool" where
  "all_checks tr script \<longleftrightarrow>
     construct_submit_poll_analyze tr \<and> no_resubmission tr \<and> adds_nothing tr script"

definition all_checks_pipelines :: "event list \<Rightarrow> event list \<Rightarrow> bool" where
  "all_checks_pipelines tr script \<longleftrightarrow> all_checks tr script \<and> only_describe_after_failure tr"

section \<open>Properties of the feature selection notebook\<close>

lemma features_below_filter:
  "features_below pairs threshold acc
     = acc @ map fst (filter (\<lambda>pair. snd pair \<le> threshold) pairs)"
  by (induction pairs arbitrary: acc) simp_all

lemma features_below_subset:
  "set (features_below pairs threshold acc) \<subseteq> set acc \<union> fst ` set pairs"
  by (auto simp: features_below_filter)

lemma features_below_columns:
  "set (features_below (zip (columns data) lst) threshold []) \<subseteq> set (columns data)"
proof -
  have "fst ` set (zip (columns data) lst) \<subseteq> set (columns data)"
    by (auto dest: set_zip_leftD)
  with features_below_subset [of "zip (columns data) lst" threshold "[]"]
  show ?thesis by auto
qed

lemma remove_features_unchanged: "remove_features lst data threshold = Inr data"
  using features_below_columns [of data lst threshold]
  by (simp add: remove_features_def drop_columns_def Let_def)

text \<open>
  C1 (the code departs from it): the docstring of \<^verbatim>\<open>remove_features\<close> and the text of
  the notebook say that the columns whose score is at most the threshold are removed from
  the frame. On the scores 0.005 and 0.5 with threshold 0.01 the first column should go;
  the frame after the call still has both columns.
\<close>

theorem remove_features_keeps_low_score_column:
  "remove_features [0.005, 0.5] [(''a'', [1::int]), (''b'', [2])] 0.01
     = Inr [(''a'', [1]), (''b'', [2])]"
  by (simp add: remove_features_def drop_columns_def columns_def)

text \<open>
  C2: for every list of scores, frame and threshold, \<^verbatim>\<open>remove_features\<close> returns
  normally and leaves the frame as it was: same columns, same order, same values. The
  three pruning calls of the notebook leave the training, validation and test frames as
  they were.
\<close>

theorem remove_features_frame_unchanged:
  "remove_features lst data threshold = Inr data \<and>
   prune_cell scores thr (X_train, X_val, X_test) = Inr (X_train, X_val, X_test)"
  by (simp add: prune_cell_def remove_features_unchanged)

lemma py_lt_rank: "a \<noteq> NaN \<Longrightarrow> b \<noteq> NaN \<Longrightarrow> py_lt a b \<longleftrightarrow> rank a < rank b"
  by (cases a; cases b) (simp_all add: less_prod_def)

lemma py_le_rank: "a \<noteq> NaN \<Longrightarrow> b \<noteq> NaN \<Longrightarrow> py_le a b \<longleftrightarrow> rank a \<le> rank b"
  by (cases a; cases b) (simp_all add: less_eq_prod_def)

lemma mset_binarysort: "mset (binarysort lt run rest) = mset run + mset rest"
proof (induction rest arbitrary: run)
  case Nil
  then show ?case by simp
next
  case (Cons pivot rest)
  have "mset (take l run @ pivot # drop l run) = add_mset pivot (mset run)" for l
    by (metis append_take_drop_id mset.simps(2) union_mset_add_mset_right mset_append)
  with Cons show ?case by (simp add: Let_def)
qed

lemma mset_list_sort: "mset (list_sort lt xs) = mset xs"
proof -
  obtain n d where c: "count_run lt xs = (n, d)" by (cases "count_run lt xs") auto
  have "mset (take n xs) + mset (drop n xs) = mset xs"
    by (metis append_take_drop_id mset_append)
  with c show ?thesis by (simp add: list_sort_def mset_binarysort)
qed

lemma mset_sorted_py: "mset (sorted_py key reverse xs) = mset xs"
  by (simp add: sorted_py_def mset_list_sort Let_def)

lemma asc_run_sorted:
  fixes f :: "'a \<Rightarrow> 'k::linorder"
  assumes H: "\<And>a b. a \<in> S \<Longrightarrow> b \<in> S \<Longrightarrow> lt a b \<longleftrightarrow> f a < f b"
  shows "x \<in> S \<Longrightarrow> set xs \<subseteq> S \<Longrightarrow> sorted (map f (x # take (asc_run lt x xs) xs))"
proof (induction xs arbitrary: x)
  case Nil
  then show ?case by simp
next
  case (Cons y ys)
  from Cons.prems have y: "y \<in> S" and ys: "set ys \<subseteq> S" by simp_all
  show ?case
  proof (cases "lt y x")
    case True
    then show ?thesis by simp
  next
    case False
    with H [OF y Cons.prems(1)] have "f x \<le> f y" by simp
    moreover from Cons.IH [OF y ys] have "sorted (map f (y # take (asc_run lt y ys) ys))" .
    ultimately show ?thesis using False by (auto intro: order_trans)
  qed
qed

lemma desc_run_sorted:
  fixes f :: "'a \<Rightarrow> 'k::linorder"
  assumes H: "\<And>a b. a \<in> S \<Longrightarrow> b \<in> S \<Longrightarrow> lt a b \<longleftrightarrow> f a < f b"
  shows "x \<in> S \<Longrightarrow> set xs \<subseteq> S \<Longrightarrow>
           sorted (rev (map f (x # take (desc_run lt x xs) xs)))"
proof (induction xs arbitrary: x)
  case Nil
  then show ?case by simp
next
  case (Cons y ys)
  from Cons.prems have y: "y \<in> S" and ys: "set ys \<subseteq> S" by simp_all
  show ?case
  proof (cases "lt y x")
    case False
    then show ?thesis by simp
  next
    case True
    with H [OF y Cons.prems(1)] have yx: "f y < f x" by simp
    from Cons.IH [OF y ys] have ih: "sorted (rev (map f (y # take (desc_run lt y ys) ys)))" .
    have "\<forall>z \<in> set (map f (y # take (desc_run lt y ys) ys)). z \<le> f y"
      using ih by (auto simp: sorted_append)
    with yx have "\<forall>z \<in> set (map f (y # take (desc_run lt y ys) ys)). z \<le> f x"
      by fastforce
    with ih True show ?thesis by (auto simp: sorted_append)
  qed
qed

lemma bisect_spec:
  fixes f :: "'a \<Rightarrow> 'k::linorder"
  assumes H: "\<And>a b. a \<in> S \<Longrightarrow> b \<in> S \<Longrightarrow> lt a b \<longleftrightarrow> f a < f b"
    and srt: "sorted (map f ys)" and ys: "set ys \<subseteq> S" and pv: "pivot \<in> S"
  shows "l \<le> r \<Longrightarrow> r \<le> length ys \<Longrightarrow>
         (\<forall>i<l. f (ys ! i) \<le> f pivot) \<Longrightarrow>
         (\<forall>i. r \<le> i \<and> i < length ys \<longrightarrow> f pivot < f (ys ! i)) \<Longrightarrow>
         bisect lt pivot ys l r \<le> length ys
         \<and> (\<forall>i<bisect lt pivot ys l r. f (ys ! i) \<le> f pivot)
         \<and> (\<forall>i. bisect lt pivot ys l r \<le> i \<and> i < length ys \<longrightarrow> f pivot < f (ys ! i))"
proof (induction "r - l" arbitrary: l r rule: less_induct)
  case less
  show ?case
  proof (cases "l < r")
    case False
    with less.prems have "l = r" by simp
    with less.prems show ?thesis by (simp add: bisect.simps [of lt pivot ys r r])
  next
    case True
    define p where "p = l + (r - l) div 2"
    from True have lp: "l \<le> p" and pr: "p < r" by (simp_all add: p_def)
    from pr less.prems have plen: "p < length ys" by simp
    then have pS: "ys ! p \<in> S" using ys by (meson nth_mem subsetD)
    have mono: "i \<le> j \<Longrightarrow> j < length ys \<Longrightarrow> f (ys ! i) \<le> f (ys ! j)" for i j
      using srt sorted_nth_mono [of "map f ys" i j] by simp
    show ?thesis
    proof (cases "lt pivot (ys ! p)")
      case lt: True
      with H [OF pv pS] have lss: "f pivot < f (ys ! p)" by simp
      have upper: "\<forall>i. p \<le> i \<and> i < length ys \<longrightarrow> f pivot < f (ys ! i)"
        using lss mono by (meson less_le_trans)
      have eq: "bisect lt pivot ys l r = bisect lt pivot ys l p"
        using True lt by (simp add: bisect.simps [of lt pivot ys l r] p_def Let_def)
      have "p - l < r - l" using lp pr by simp
      from less.hyps [OF this lp _ less.prems(3) upper] plen show ?thesis
        unfolding eq by simp
    next
      case ge: False
      with H [OF pv pS] have le: "f (ys ! p) \<le> f pivot" by simp
      have lower: "\<forall>i<Suc p. f (ys ! i) \<le> f pivot"
        using le mono plen by (meson less_Suc_eq_le order_trans)
      have eq: "bisect lt pivot ys l r = bisect lt pivot ys (Suc p) r"
        using True ge by (simp add: bisect.simps [of lt pivot ys l r] p_def Let_def)
      have "r - Suc p < r - l" using lp pr by simp
      from less.hyps [OF this _ less.prems(2) lower less.prems(4)] pr show ?thesis
        unfolding eq by simp
    qed
  qed
qed

lemma insert_sorted:
  fixes f :: "'a \<Rightarrow> 'k::linorder"
  assumes srt: "sorted (map f ys)" and p: "p \<le> length ys"
    and lo: "\<forall>i<p. f (ys ! i) \<le> f pivot"
    and hi: "\<forall>i. p \<le> i \<and> i < length ys \<longrightarrow> f pivot < f (ys ! i)"
  shows "sorted (map f (take p ys @ pivot # drop p ys))"
proof -
  have a: "sorted (map f (take p ys))" and b: "sorted (map f (drop p ys))"
    using srt by (simp_all add: sorted_map sorted_wrt_take sorted_wrt_drop)
  have c: "\<forall>x \<in> set (take p ys). f x \<le> f pivot"
    using lo p by (auto simp: in_set_conv_nth)
  have d: "\<forall>y \<in> set (drop p ys). f pivot \<le> f y"
  proof
    fix y assume "y \<in> set (drop p ys)"
    then obtain j where j: "j < length (drop p ys)" and y: "y = drop p ys ! j"
      by (auto simp: in_set_conv_nth)
    from j have "p + j < length ys" by simp
    with hi have "f pivot < f (ys ! (p + j))" by simp
    with y p show "f pivot \<le> f y" by simp
  qed
  from c d have e: "\<forall>x \<in> set (take p ys). \<forall>y \<in> set (drop p ys). f x \<le> f y"
    by (meson order_trans)
  from a b c d e show ?thesis
    by (auto simp: sorted_append)
qed

lemma binarysort_sorted:
  fixes f :: "'a \<Rightarrow> 'k::linorder"
  assumes H: "\<And>a b. a \<in> S \<Longrightarrow> b \<in> S \<Longrightarrow> lt a b \<longleftrightarrow> f a < f b"
  shows "sorted (map f run) \<Longrightarrow> set run \<subseteq> S \<Longrightarrow> set rest \<subseteq> S \<Longrightarrow>
           sorted (map f (binarysort lt run rest))"
proof (induction rest arbitrary: run)
  case Nil
  then show ?case by simp
next
  case (Cons pivot rest)
  define l where "l = bisect lt pivot run 0 (length run)"
  from Cons.prems have pv: "pivot \<in> S" and rest: "set rest \<subseteq> S" by simp_all
  have "\<forall>i. length run \<le> i \<and> i < length run \<longrightarrow> f pivot < f (run ! i)" by auto
  with bisect_spec [OF H Cons.prems(1) Cons.prems(2) pv, of 0 "length run"]
  have spec: "l \<le> length run" "\<forall>i<l. f (run ! i) \<le> f pivot"
      "\<forall>i. l \<le> i \<and> i < length run \<longrightarrow> f pivot < f (run ! i)"
    by (simp_all add: l_def)
  from insert_sorted [OF Cons.prems(1) spec]
  have s: "sorted (map f (take l run @ pivot # drop l run))" .
  have sub: "set (take l run @ pivot # drop l run) \<subseteq> S"
    using Cons.prems(2) pv by (auto dest: in_set_takeD in_set_dropD)
  from Cons.IH [OF s sub rest] show ?case by (simp add: l_def Let_def)
qed

lemma list_sort_sorted:
  fixes f :: "'a \<Rightarrow> 'k::linorder"
  assumes H: "\<And>a b. a \<in> S \<Longrightarrow> b \<in> S \<Longrightarrow> lt a b \<longleftrightarrow> f a < f b"
    and xs: "set xs \<subseteq> S"
  shows "sorted (map f (list_sort lt xs))"
proof -
  have rest: "set (drop n xs) \<subseteq> S" and run: "set (take n xs) \<subseteq> S" for n
    using xs by (auto dest: in_set_takeD in_set_dropD)
  show ?thesis
    proof (cases xs)
      case Nil
      then show ?thesis by (simp add: list_sort_def)
    next
      case (Cons x0 xs')
      show ?thesis
      proof (cases xs')
        case Nil
        with Cons show ?thesis by (simp add: list_sort_def)
      next
        case (Cons x1 ys)
        with \<open>xs = x0 # xs'\<close> have xs_eq: "xs = x0 # x1 # ys" by simp
    from xs xs_eq have x0: "x0 \<in> S" and x1: "x1 \<in> S" and ys: "set ys \<subseteq> S" by simp_all
    show ?thesis
    proof (cases "lt x1 x0")
      case True
      with H [OF x1 x0] have "f x1 < f x0" by simp
      moreover from desc_run_sorted [OF H x1 ys]
      have d: "sorted (rev (map f (x1 # take (desc_run lt x1 ys) ys)))" .
      ultimately have "sorted (map f (rev (x0 # x1 # take (desc_run lt x1 ys) ys)))"
        by (auto simp: sorted_append rev_map)
      then have a: "sorted (map f (rev (take (2 + desc_run lt x1 ys) xs)))"
        by (simp add: xs_eq)
      have b: "set (rev (take (2 + desc_run lt x1 ys) xs)) \<subseteq> S"
        using run [of "2 + desc_run lt x1 ys"] by simp
      from binarysort_sorted [OF H a b rest]
      have "sorted (map f (binarysort lt (rev (take (2 + desc_run lt x1 ys) xs))
                      (drop (2 + desc_run lt x1 ys) xs)))" .
      then show ?thesis
        using True by (simp add: list_sort_def xs_eq)
    next
      case False
      with H [OF x1 x0] have "f x0 \<le> f x1" by simp
      moreover from asc_run_sorted [OF H x1 ys]
      have "sorted (map f (x1 # take (asc_run lt x1 ys) ys))" .
      ultimately have a: "sorted (map f (take (2 + asc_run lt x1 ys) xs))"
        by (auto simp: xs_eq intro: order_trans)
      from binarysort_sorted [OF H a run rest]
      have "sorted (map f (binarysort lt (take (2 + asc_run lt x1 ys) xs)
                      (drop (2 + asc_run lt x1 ys) xs)))" .
      then show ?thesis
        using False by (simp add: list_sort_def xs_eq)
    qed
    qed
  qed
qed

lemma bisect_step:
  "l < r \<Longrightarrow> bisect lt pivot ys l r =
     (if lt pivot (ys ! (l + (r - l) div 2)) then bisect lt pivot ys l (l + (r - l) div 2)
      else bisect lt pivot ys (Suc (l + (r - l) div 2)) r)"
  by (simp add: bisect.simps [of lt pivot ys l r] Let_def)

lemma bisect_done: "\<not> l < r \<Longrightarrow> bisect lt pivot ys l r = l"
  by (simp add: bisect.simps [of lt pivot ys l r])

lemma sorted_py_reverse_sorted:
  assumes "\<forall>x \<in> set xs. key x \<noteq> NaN"
  shows "sorted_wrt (\<lambda>a b. py_le (key b) (key a)) (sorted_py key True xs)"
proof -
  define lt where "lt = (\<lambda>a b. py_lt (key a) (key b))"
  define S where "S = {x. key x \<noteq> NaN}"
  define ys where "ys = list_sort lt (rev xs)"
  have H: "\<And>a b. a \<in> S \<Longrightarrow> b \<in> S \<Longrightarrow> lt a b \<longleftrightarrow> rank (key a) < rank (key b)"
    by (simp add: S_def lt_def py_lt_rank)
  have sub: "set (rev xs) \<subseteq> S" using assms by (auto simp: S_def)
  from list_sort_sorted [OF H sub] have "sorted (map (\<lambda>x. rank (key x)) ys)"
    by (simp add: ys_def)
  then have s: "sorted_wrt (\<lambda>a b. rank (key a) \<le> rank (key b)) ys"
    by (simp add: sorted_map)
  have "set ys = set xs"
    using mset_list_sort [of lt "rev xs"] by (metis mset_eq_setD set_rev ys_def)
  with assms have nn: "\<forall>x \<in> set ys. key x \<noteq> NaN" by simp
  have "sorted_wrt (\<lambda>a b. py_le (key a) (key b)) ys"
    by (rule sorted_wrt_mono_rel [OF _ s]) (simp add: nn py_le_rank)
  then show ?thesis
    by (simp add: sorted_py_def Let_def lt_def ys_def sorted_wrt_rev)
qed

text \<open>
  C9 (as stated, refuted): the specification gives the printed list non-increasing scores
  for every sequence of scores. A score that is NaN compares false with every other, so on
  the scores 1.0, NaN, 2.0 the sort finds the reversed list already in order and the
  printed list is the input: 1.0 before 2.0.
\<close>

theorem show_ranked_feature_importance_list_nan:
  "show_ranked_feature_importance_list [Num 1, NaN, Num 2]
       [(''a'', [1::int]), (''b'', [2]), (''c'', [3])]
     = [(''a'', Num 1), (''b'', NaN), (''c'', Num 2)]
   \<and> \<not> sorted_wrt (\<lambda>a b. py_le (snd b) (snd a))
         (show_ranked_feature_importance_list [Num 1, NaN, Num 2]
            [(''a'', [1::int]), (''b'', [2]), (''c'', [3])])"
  by (simp add: show_ranked_feature_importance_list_def sorted_py_def columns_def list_sort_def)

text \<open>
  C9 (amended): when the frame has one column per score and no score is NaN, the list that
  \<^verbatim>\<open>show_ranked_feature_importance_list\<close> prints is a permutation of
  \<^verbatim>\<open>zip(data.columns, scores)\<close> and its scores are in non-increasing order.
\<close>

theorem show_ranked_feature_importance_list_sorted_perm:
  assumes "length scores = length (columns data)" and "NaN \<notin> set scores"
  shows "mset (show_ranked_feature_importance_list scores data) = mset (zip (columns data) scores)
       \<and> sorted_wrt (\<lambda>a b. py_le (snd b) (snd a)) (show_ranked_feature_importance_list scores data)"
proof -
  have "\<forall>x \<in> set (zip (columns data) scores). snd x \<noteq> NaN"
    using assms(2) by (metis set_zip_rightD prod.collapse)
  from sorted_py_reverse_sorted [OF this] show ?thesis
    by (simp add: show_ranked_feature_importance_list_def mset_sorted_py)
qed

theorem show_ranked_feature_importance_list_sorted_perm_witness:
  "length [Num 0.2, Num 0.7, Num 0.2] = length (columns [(''a'', [1::int]), (''b'', [2]), (''c'', [3])])
   \<and> NaN \<notin> set [Num 0.2, Num 0.7, Num 0.2]
   \<and> show_ranked_feature_importance_list [Num 0.2, Num 0.7, Num 0.2]
         [(''a'', [1::int]), (''b'', [2]), (''c'', [3])]
       = [(''b'', Num 0.7), (''a'', Num 0.2), (''c'', Num 0.2)]
   \<and> sorted_wrt (\<lambda>a b. py_le (snd b) (snd a))
       (show_ranked_feature_importance_list [Num 0.2, Num 0.7, Num 0.2]
          [(''a'', [1::int]), (''b'', [2]), (''c'', [3])])"
  using show_ranked_feature_importance_list_sorted_perm
    [of "[Num 0.2, Num 0.7, Num 0.2]" "[(''a'', [1::int]), (''b'', [2]), (''c'', [3])]"]
  by (simp add: show_ranked_feature_importance_list_def sorted_py_def columns_def list_sort_def
        bisect_step bisect_done)

section \<open>Properties of the pipelines\<close>

text \<open>
  C3 (as stated, refuted): the specification gives every pipeline exactly two steps; the
  training pipeline is constructed with three.
\<close>

theorem pipeline_training_not_two_steps:
  "length (steps pipeline_training) = 3 \<and> length (steps pipeline_training) \<noteq> 2"
  by (simp add: pipeline_training_def)

text \<open>
  C3 (amended): the steps list of the training pipeline "sklearn-scheduled-training" has
  length exactly three and that of the inference pipeline "sklearn-scheduled-inference"
  has length exactly one.
\<close>

theorem pipeline_step_counts:
  "pipeline_name pipeline_training = ''sklearn-scheduled-training''
   \<and> length (steps pipeline_training) = 3
   \<and> pipeline_name pipeline_inference = ''sklearn-scheduled-inference''
   \<and> length (steps pipeline_inference) = 1"
  by (simp add: pipeline_training_def pipeline_inference_def)

text \<open>
  C4: the training pipeline's steps are the processing step, the training step and the
  model-creation step, in that order; the inference pipeline's steps are the transform
  step alone; no step of any pipeline is of another kind.
\<close>

theorem pipeline_steps_exact:
  "steps pipeline_training = [step_process, step_train, step_create_model]
   \<and> map kind_of (steps pipeline_training) = [Processing, Training, CreateModel]
   \<and> steps pipeline_inference = [transformer_step]
   \<and> map kind_of (steps pipeline_inference) = [Transform]
   \<and> set (map kind_of (concat (map steps pipelines)))
       \<subseteq> {Processing, Training, CreateModel, Transform}"
  by (simp add: pipelines_def pipeline_training_def pipeline_inference_def
        step_process_def step_train_def step_create_model_def transformer_step_def)

section \<open>Properties of the tuners\<close>

text \<open>
  C5 (as stated, refuted): the specification gives the two tuners different search
  strategies; both are constructed with the same one.
\<close>

theorem tuner_strategies_equal: "strategy tuner_log = strategy tuner_linear"
  by (simp add: tuner_log_def tuner_linear_def)

text \<open>
  C5 (amended): both tuners are configured with the strategy "Random"; what differs
  between the two tuning jobs is the scaling type of the ranges, "Logarithmic" for
  \<^verbatim>\<open>tuner_log\<close> and "Linear" for \<^verbatim>\<open>tuner_linear\<close>.
\<close>

theorem tuner_strategy_same_scaling_differs:
  "strategy tuner_log = ''Random'' \<and> strategy tuner_linear = ''Random''
   \<and> map (\<lambda>r. scaling_type (snd r)) (tuner_hyperparameter_ranges tuner_log)
       = [''Logarithmic'', ''Logarithmic'']
   \<and> map (\<lambda>r. scaling_type (snd r)) (tuner_hyperparameter_ranges tuner_linear)
       = [''Linear'', ''Linear'']"
  by (simp add: tuner_log_def tuner_linear_def hyperparameter_ranges_def
        hyperparameter_ranges_linear_def)

text \<open>
  C6: every tuner has the strategy "Random" or "Bayesian", and each of its ranges is for
  alpha or lambda and holds the bounds 0.01 and 10 and a scaling type, nothing else.
\<close>

theorem tuner_strategy_and_ranges:
  "\<forall>t \<in> set tuners.
     (strategy t = ''Random'' \<or> strategy t = ''Bayesian'')
     \<and> map fst (tuner_hyperparameter_ranges t) = [''alpha'', ''lambda'']
     \<and> (\<forall>r \<in> set (tuner_hyperparameter_ranges t).
          \<exists>s. snd r = \<lparr>min_value = 0.01, max_value = 10, scaling_type = s\<rparr>)"
  by (simp add: tuners_def tuner_log_def tuner_linear_def hyperparameter_ranges_def
        hyperparameter_ranges_linear_def)

theorem tuner_strategy_and_ranges_witness:
  "tuner_linear \<in> set tuners
   \<and> strategy tuner_linear = ''Random''
   \<and> (''lambda'', \<lparr>min_value = 0.01, max_value = 10, scaling_type = ''Linear''\<rparr>)
       \<in> set (tuner_hyperparameter_ranges tuner_linear)
   \<and> (\<exists>s. \<lparr>min_value = 0.01, max_value = 10, scaling_type = ''Linear''\<rparr>
           = \<lparr>min_value = 0.01, max_value = 10, scaling_type = s\<rparr>)"
proof -
  have m: "tuner_linear \<in> set tuners"
    by (simp add: tuners_def)
  have r: "(''lambda'', \<lparr>min_value = 0.01, max_value = 10, scaling_type = ''Linear''\<rparr>)
             \<in> set (tuner_hyperparameter_ranges tuner_linear)"
    by (simp add: tuner_linear_def hyperparameter_ranges_linear_def)
  from tuner_strategy_and_ranges m
  have t: "(strategy tuner_linear = ''Random'' \<or> strategy tuner_linear = ''Bayesian'')
           \<and> (\<forall>r \<in> set (tuner_hyperparameter_ranges tuner_linear).
                \<exists>s. snd r = \<lparr>min_value = 0.01, max_value = 10, scaling_type = s\<rparr>)"
    by blast
  from t r have "\<exists>s. snd (''lambda'', \<lparr>min_value = 0.01, max_value = 10, scaling_type = ''Linear''\<rparr>)
                    = \<lparr>min_value = 0.01, max_value = 10, scaling_type = s\<rparr>"
    by blast
  moreover have "strategy tuner_linear = ''Random''"
    by (simp add: tuner_linear_def)
  ultimately show ?thesis using m r by simp
qed

section \<open>Properties of the split\<close>

lemma bit_length_bounds: "0 < n \<Longrightarrow> 2 ^ (bit_length n - 1) \<le> n \<and> n < 2 ^ bit_length n"
proof (induction n rule: bit_length.induct)
  case (1 n)
  show ?case
  proof (cases "n div 2 = 0")
    case True
    with "1.prems" have "n = 1" by (simp add: div_eq_0_iff) 
    then show ?thesis by (simp add: bit_length.simps)
  next
    case False
    with 1 have ih: "2 ^ (bit_length (n div 2) - 1) \<le> n div 2 \<and> n div 2 < 2 ^ bit_length (n div 2)"
      by simp
    from False have pos: "0 < bit_length (n div 2)"
      by (simp add: bit_length.simps [of "n div 2"])
    have bl: "bit_length n = Suc (bit_length (n div 2))"
      using "1.prems" by (simp add: bit_length.simps [of n])
    from ih have "2 * 2 ^ (bit_length (n div 2) - 1) \<le> n" by linarith
    moreover have "2 * 2 ^ (bit_length (n div 2) - 1) = (2::nat) ^ bit_length (n div 2)"
      using pos by (cases "bit_length (n div 2)") simp_all
    moreover from ih have "n < 2 * 2 ^ bit_length (n div 2)" by linarith
    ultimately show ?thesis using bl by simp
  qed
qed

lemma bit_length_small: "n < 2 ^ 53 \<Longrightarrow> bit_length n \<le> 53"
proof (rule ccontr)
  assume n: "n < 2 ^ 53" and "\<not> bit_length n \<le> 53"
  then have b: "54 \<le> bit_length n" by simp
  then have "0 < n" by (cases "n = 0") (simp_all add: bit_length.simps)
  from bit_length_bounds [OF this] have "2 ^ (bit_length n - 1) \<le> n" by simp
  moreover from b have "(2::nat) ^ 53 \<le> 2 ^ (bit_length n - 1)"
    by (intro power_increasing) simp_all
  ultimately show False using n by linarith
qed

lemma round_sig_small: "n < 2 ^ 53 \<Longrightarrow> round_sig n = n"
  using bit_length_small [of n] by (simp add: round_sig_def)

lemma round_sig_error:
  "round_sig M * 2 ^ 53 \<le> M * (2 ^ 53 + 1) \<and> M * (2 ^ 53 - 1) \<le> round_sig M * 2 ^ 53"
proof (cases "bit_length M \<le> 53")
  case True
  then show ?thesis by (simp add: round_sig_def diff_mult_distrib2)
next
  case False
  define s where "s = bit_length M - 53"
  define q where "q = M div 2 ^ s"
  define r where "r = M mod 2 ^ s"
  define h :: nat where "h = 2 ^ (s - 1)"
  from False have s: "0 < s" and bl: "bit_length M - 1 = (s - 1) + 53"
    by (simp_all add: s_def)
  from False have "0 < M" by (cases "M = 0") (simp_all add: bit_length.simps)
  from bit_length_bounds [OF this] bl have "2 ^ ((s - 1) + 53) \<le> M" by simp
  then have hM: "h * 2 ^ 53 \<le> M" by (simp add: h_def power_add)
  have two_h: "2 ^ s = 2 * h" using s by (cases s) (simp_all add: h_def)
  have M: "M = q * (2 * h) + r"
    unfolding q_def r_def two_h [symmetric] by (rule div_mult_mod_eq [symmetric])
  have r: "r < 2 * h" unfolding r_def two_h [symmetric] by simp
  define up where "up \<longleftrightarrow> h < r \<or> (r = h \<and> odd q)"
  have R: "round_sig M = (if up then q + 1 else q) * (2 * h)"
    using False unfolding two_h [symmetric] up_def
    by (simp add: round_sig_def Let_def s_def q_def r_def h_def)
  show ?thesis
  proof (cases up)
    case True
    then have hr: "h \<le> r" by (auto simp: up_def)
    from True R have "round_sig M = q * (2 * h) + 2 * h" by simp
    with M hr r have le: "round_sig M \<le> M + h" and ge: "M \<le> round_sig M" by simp_all
    from le have "round_sig M * 2 ^ 53 \<le> (M + h) * 2 ^ 53" by (rule mult_le_mono1)
    then have up: "round_sig M * 2 ^ 53 \<le> M * 2 ^ 53 + h * 2 ^ 53" by (simp add: add_mult_distrib)
    from ge have lo: "M * 2 ^ 53 \<le> round_sig M * 2 ^ 53" by (rule mult_le_mono1)
    from up lo hM show ?thesis by (simp add: add_mult_distrib2 diff_mult_distrib2)
  next
    case False
    then have hr: "r \<le> h" by (auto simp: up_def)
    from False R have "round_sig M = q * (2 * h)" by simp
    with M hr have le: "round_sig M \<le> M" and ge: "M \<le> round_sig M + h" by simp_all
    from le have up: "round_sig M * 2 ^ 53 \<le> M * 2 ^ 53" by (rule mult_le_mono1)
    from ge have "M * 2 ^ 53 \<le> (round_sig M + h) * 2 ^ 53" by (rule mult_le_mono1)
    then have lo: "M * 2 ^ 53 \<le> round_sig M * 2 ^ 53 + h * 2 ^ 53" by (simp add: add_mult_distrib)
    from up lo hM show ?thesis by (simp add: add_mult_distrib2 diff_mult_distrib2)
  qed
qed

lemma scaled_le:
  fixes a b c d k n P R1 R2 :: nat
  assumes u: "R1 * P \<le> a * n * c" and l: "b * n * d \<le> R2 * P"
    and kc: "k * a * c \<le> b * d" and P: "0 < P"
  shows "k * R1 \<le> R2"
proof -
  from u have "k * (R1 * P) \<le> k * (a * n * c)" by (rule mult_le_mono2)
  also have "k * (a * n * c) = (k * a * c) * n" by (simp add: mult_ac)
  also from kc have "(k * a * c) * n \<le> (b * d) * n" by (rule mult_le_mono1)
  also have "(b * d) * n = b * n * d" by (simp add: mult_ac)
  also note l
  finally have "(k * R1) * P \<le> R2 * P" by (simp add: mult_ac)
  with P show ?thesis by simp
qed

lemma split_points_ordered:
  assumes "n < 2 ^ 53"
  shows "int_of_product double_0_7 n \<le> int_of_product double_0_9 n
       \<and> int_of_product double_0_9 n \<le> n"
proof -
  define R1 where "R1 = round_sig (3152519739159347 * n)"
  define R2 where "R2 = round_sig (8106479329266893 * n)"
  from round_sig_error [of "3152519739159347 * n"]
  have u1: "R1 * 2 ^ 53 \<le> 3152519739159347 * n * (2 ^ 53 + 1)"
    unfolding R1_def by (rule conjunct1)
  from round_sig_error [of "8106479329266893 * n"]
  have u2: "R2 * 2 ^ 53 \<le> 8106479329266893 * n * (2 ^ 53 + 1)"
    unfolding R2_def by (rule conjunct1)
  from round_sig_error [of "8106479329266893 * n"]
  have l2: "8106479329266893 * n * (2 ^ 53 - 1) \<le> R2 * 2 ^ 53"
    unfolding R2_def by (rule conjunct2)
  have "2 * R1 \<le> R2"
    by (rule scaled_le [OF u1 l2]) simp_all
  then have "(2 * R1) div (2 * 2 ^ 52) \<le> R2 div (2 * 2 ^ 52)" by (rule div_le_mono)
  moreover have "(2 * R1) div (2 * 2 ^ 52) = R1 div 2 ^ 52"
    by (rule div_mult_mult1) simp
  moreover have "(2::nat) * 2 ^ 52 = 2 ^ 53" by simp
  ultimately have a: "R1 div 2 ^ 52 \<le> R2 div 2 ^ 53" by simp
  have "(2 ^ 53 :: nat) * n * 2 ^ 53 \<le> (n * 2 ^ 53) * 2 ^ 53" by (simp only: mult_ac)
  from scaled_le [OF u2 this, of 1] have "R2 \<le> n * 2 ^ 53" by simp
  then have "R2 div 2 ^ 53 \<le> (n * 2 ^ 53) div 2 ^ 53" by (rule div_le_mono)
  then have b: "R2 div 2 ^ 53 \<le> n" by simp
  from assms have "round_sig n = n" by (rule round_sig_small)
  with a b show ?thesis
    by (simp add: int_of_product_def double_0_7_def double_0_9_def R1_def R2_def)
qed

lemma bit_length_0: "bit_length 0 = 0"
  by (simp add: bit_length.simps)

lemma bit_length_pos: "0 < n \<Longrightarrow> bit_length n = Suc (bit_length (n div 2))"
  by (simp add: bit_length.simps [of n])


lemma np_split3_append:
  "i1 \<le> i2 \<Longrightarrow> np_split3 ary i1 i2 = (a, b, c) \<Longrightarrow> a @ b @ c = ary"
proof -
  assume le: "i1 \<le> i2" and s: "np_split3 ary i1 i2 = (a, b, c)"
  from le have "take i1 (take i2 ary) = take i1 ary" by (simp add: min_def)
  then have "take i1 ary @ drop i1 (take i2 ary) = take i2 ary"
    by (metis append_take_drop_id)
  then have "take i1 ary @ drop i1 (take i2 ary) @ drop i2 ary = ary"
    by (metis append_assoc append_take_drop_id)
  with s show ?thesis by (simp add: np_split3_def)
qed

lemma np_split3_lengths:
  "i1 \<le> i2 \<Longrightarrow> i2 \<le> length ary \<Longrightarrow> np_split3 ary i1 i2 = (a, b, c) \<Longrightarrow>
     length a = i1 \<and> length b = i2 - i1 \<and> length c = length ary - i2"
  by (auto simp: np_split3_def)

lemma sample_all_perm:
  assumes "mset locs = mset [0..<length frame]"
  shows "\<exists>shuffled. sample_all locs frame = Inr shuffled \<and> mset shuffled = mset frame"
proof -
  from assms have "set locs = set [0..<length frame]" by (rule mset_eq_setD)
  then have ok: "list_all (\<lambda>i. i < length frame) locs" by (auto simp: list_all_iff)
  have "mset (map (\<lambda>i. frame ! i) locs) = image_mset (\<lambda>i. frame ! i) (mset locs)" by simp
  also have "\<dots> = image_mset (\<lambda>i. frame ! i) (mset [0..<length frame])" using assms by simp
  also have "\<dots> = mset (map (\<lambda>i. frame ! i) [0..<length frame])" by simp
  also have "\<dots> = mset frame" by (simp add: map_nth)
  finally show ?thesis using ok by (simp add: sample_all_def)
qed

lemma split_data_partition_aux:
  assumes perm: "mset locs = mset [0..<length model_data]"
    and labels: "distinct (map fst model_data)"
    and size: "length model_data < 2 ^ 53"
  shows "\<exists>train_data validation_data test_data.
           split_data locs model_data = Inr (train_data, validation_data, test_data)
         \<and> set (map fst train_data) \<inter> set (map fst validation_data) = {}
         \<and> set (map fst train_data) \<inter> set (map fst test_data) = {}
         \<and> set (map fst validation_data) \<inter> set (map fst test_data) = {}
         \<and> mset (train_data @ validation_data @ test_data) = mset model_data
         \<and> length train_data = int_of_product double_0_7 (length model_data)
         \<and> length validation_data = int_of_product double_0_9 (length model_data)
                                      - int_of_product double_0_7 (length model_data)
         \<and> length test_data = length model_data - int_of_product double_0_9 (length model_data)"
proof -
  define i1 where "i1 = int_of_product double_0_7 (length model_data)"
  define i2 where "i2 = int_of_product double_0_9 (length model_data)"
  from split_points_ordered [OF size] have ord: "i1 \<le> i2" "i2 \<le> length model_data"
    by (simp_all add: i1_def i2_def)
  from sample_all_perm [OF perm] obtain shuffled
    where sh: "sample_all locs model_data = Inr shuffled" and ms: "mset shuffled = mset model_data"
    by blast
  obtain a b c where abc: "np_split3 shuffled i1 i2 = (a, b, c)"
    by (cases "np_split3 shuffled i1 i2") auto
  from np_split3_append [OF ord(1) abc] have app: "a @ b @ c = shuffled" .
  from ms have len: "length shuffled = length model_data" by (rule mset_eq_length)
  from np_split3_lengths [OF ord(1) _ abc] ord(2) len
  have lens: "length a = i1 \<and> length b = i2 - i1 \<and> length c = length model_data - i2"
    by simp
  from ms have "mset (map fst shuffled) = mset (map fst model_data)" by simp
  with labels have "distinct (map fst shuffled)" by (metis mset_eq_imp_distinct_iff)
  with app have "distinct (map fst a @ map fst b @ map fst c)" by (metis map_append)
  then have disj: "set (map fst a) \<inter> set (map fst b) = {}"
      "set (map fst a) \<inter> set (map fst c) = {}"
      "set (map fst b) \<inter> set (map fst c) = {}"
    by auto
  have "split_data locs model_data = Inr (a, b, c)"
    using sh abc by (simp add: split_data_def i1_def i2_def)
  with disj lens app ms show ?thesis
    unfolding i1_def i2_def by (intro exI [of _ a] exI [of _ b] exI [of _ c]) simp
qed

lemma split_sizes_range_frame:
  assumes "n < 2 ^ 53"
  shows "split_sizes [0..<n] (range_frame n :: 'v row_frame)
           = Inr (int_of_product double_0_7 n,
                  int_of_product double_0_9 n - int_of_product double_0_7 n,
                  n - int_of_product double_0_9 n)"
proof -
  have len: "length (range_frame n :: 'v row_frame) = n"
    by (simp add: range_frame_def)
  have "map fst (range_frame n :: 'v row_frame) = [0..<n]"
    by (simp add: range_frame_def comp_def)
  then have d: "distinct (map fst (range_frame n :: 'v row_frame))" by simp
  from split_data_partition_aux [of "[0..<n]" "range_frame n :: 'v row_frame"] len d assms
  show ?thesis by (auto simp: split_sizes_def)
qed

text \<open>
  C10 (as stated, refuted): on a frame of 90 rows the specification gives the parts the sizes
  \<open>\<lfloor>0.7 * 90\<rfloor> = 63\<close>, \<open>\<lfloor>0.9 * 90\<rfloor> - 63 = 18\<close> and 9. The double product
  \<^verbatim>\<open>0.7 * 90\<close> is 62.99999999999999, so the code cuts at 62: the sizes are 62, 19
  and 9.
\<close>

theorem split_sizes_90_rows:
  "split_sizes [0..<90] (range_frame 90 :: int row_frame) = Inr (62, 19, 9)
   \<and> split_sizes [0..<90] (range_frame 90 :: int row_frame)
       \<noteq> Inr (nat \<lfloor>(7 / 10 :: real) * 90\<rfloor>,
               nat \<lfloor>(9 / 10 :: real) * 90\<rfloor> - nat \<lfloor>(7 / 10 :: real) * 90\<rfloor>,
               90 - nat \<lfloor>(9 / 10 :: real) * 90\<rfloor>)
   \<and> \<lfloor>(7 / 10 :: real) * 90\<rfloor> = 63
   \<and> \<lfloor>(9 / 10 :: real) * 90\<rfloor> = 81"
proof -
  have "int_of_product double_0_7 90 = 62"
    by (simp add: int_of_product_def double_0_7_def round_sig_def Let_def
          bit_length_0 bit_length_pos)
  moreover have "int_of_product double_0_9 90 = 81"
    by (simp add: int_of_product_def double_0_9_def round_sig_def Let_def
          bit_length_0 bit_length_pos)
  ultimately show ?thesis
    using split_sizes_range_frame [of 90, where 'v = int] by simp
qed

text \<open>
  C10 (amended): for a frame of fewer than \<open>2 ^ 53\<close> rows with distinct index labels,
  and whatever permutation of the row positions the sampling draws, the split returns
  three parts whose index labels are pairwise disjoint, whose concatenation is a
  permutation of the rows of the frame, and whose sizes are \<open>i1\<close>, \<open>i2 - i1\<close> and
  \<open>n - i2\<close>, where \<open>i1\<close> and \<open>i2\<close> are \<^verbatim>\<open>int(0.7 * n)\<close> and \<^verbatim>\<open>int(0.9 * n)\<close>
  as double-precision arithmetic computes them.
\<close>

theorem split_data_partition:
  assumes "mset locs = mset [0..<length model_data]"
    and "distinct (map fst model_data)"
    and "length model_data < 2 ^ 53"
  shows "\<exists>train_data validation_data test_data.
           split_data locs model_data = Inr (train_data, validation_data, test_data)
         \<and> set (map fst train_data) \<inter> set (map fst validation_data) = {}
         \<and> set (map fst train_data) \<inter> set (map fst test_data) = {}
         \<and> set (map fst validation_data) \<inter> set (map fst test_data) = {}
         \<and> mset (train_data @ validation_data @ test_data) = mset model_data
         \<and> length train_data = int_of_product double_0_7 (length model_data)
         \<and> length validation_data = int_of_product double_0_9 (length model_data)
                                      - int_of_product double_0_7 (length model_data)
         \<and> length test_data = length model_data - int_of_product double_0_9 (length model_data)"
  using assms by (rule split_data_partition_aux)

theorem split_data_partition_witness:
  "mset [2, 0, 1] = mset [0..<length [(0::nat, [10::int]), (1, [20]), (2, [30])]]
   \<and> distinct (map fst [(0::nat, [10::int]), (1, [20]), (2, [30])])
   \<and> length [(0::nat, [10::int]), (1, [20]), (2, [30])] < 2 ^ 53
   \<and> split_data [2, 0, 1] [(0, [10::int]), (1, [20]), (2, [30])]
       = Inr ([(2, [30]), (0, [10])], [], [(1, [20])])"
proof -
  have u: "[0..<3] = [0, 1, 2]" by (simp add: upt_rec)
  have p: "mset [2, 0, 1] = mset [0..<length [(0::nat, [10::int]), (1, [20]), (2, [30])]]"
    by (simp add: u)
  have d: "distinct (map fst [(0::nat, [10::int]), (1, [20]), (2, [30])])" by simp
  have l: "length [(0::nat, [10::int]), (1, [20]), (2, [30])] < 2 ^ 53" by simp
  have i1: "int_of_product double_0_7 3 = 2"
    by (simp add: int_of_product_def double_0_7_def round_sig_def Let_def
          bit_length_0 bit_length_pos)
  have i2: "int_of_product double_0_9 3 = 2"
    by (simp add: int_of_product_def double_0_9_def round_sig_def Let_def
          bit_length_0 bit_length_pos)
  have s: "split_data [2, 0, 1] [(0, [10::int]), (1, [20]), (2, [30])]
             = Inr ([(2, [30]), (0, [10])], [], [(1, [20])])"
    using i1 i2 by (simp add: split_data_def sample_all_def np_split3_def numeral_3_eq_3)
  from split_data_partition [OF p d l] s p d l show ?thesis by simp
qed

section \<open>Properties of the notebook runs\<close>

lemmas stmt_defs = emit_def submitted_def describes_so_far_def Let_def local_stmt_def
  construct_def other_def upload_def construct_pipeline_def construct_tuner_def upsert_def
  start_def wait_def describe_execution_def fit_def latest_job_name_def
  describe_tuning_job_def assert_completed_def analytics_def derive_def plot_results_def
  plot_values_def deploy_def

lemma run_cell_single: "run_cell [s] svc k = s svc k"
  by (cases "s svc k") (auto split: option.splits)

lemma run_cell_more:
  "run_cell (s # s' # ss) svc k =
     (case s svc k of
        (k', None) \<Rightarrow> run_cell (s' # ss) svc k'
      | (k', Some e) \<Rightarrow> (k', Some e))"
  by (rule run_cell.simps)

lemma run_cells_interactive:
  "run_cells False (c # cs) svc k =
     (case run_cell c svc k of (k', r) \<Rightarrow> run_cells False cs svc k')"
  by (auto split: prod.splits option.splits)

lemma run_cells_halting:
  "run_cells True (c # cs) svc k =
     (case run_cell c svc k of
        (k', None) \<Rightarrow> run_cells True cs svc k'
      | (k', Some e) \<Rightarrow> k')"
  by (auto split: prod.splits option.splits)

lemmas run_simps = run_notebook_def stmt_defs run_cell_single run_cell_more
  run_cells_interactive run_cells_halting all_succeed_def
  all_checks_pipelines_def all_checks_def construct_submit_poll_analyze_def adds_nothing_def

lemma feature_selection_checks:
  "all_checks (run_notebook halt feature_selection_notebook svc)
     (run_notebook halt feature_selection_notebook all_succeed)"
  by (cases halt)
     (simp_all add: run_simps feature_selection_notebook_def
        del: run_cell.simps run_cells.simps(2))

lemma scheduling_interactive:
  "all_checks_pipelines (run_notebook False scheduling_notebook svc)
     (run_notebook False scheduling_notebook all_succeed)"
  by (simp add: run_simps scheduling_notebook_def del: run_cell.simps run_cells.simps(2))

lemma scheduling_halting:
  "all_checks_pipelines (run_notebook True scheduling_notebook svc)
     (run_notebook True scheduling_notebook all_succeed)"
proof (cases "wait_raises svc TrainingExecution")
  case True
  then show ?thesis
    by (simp add: run_simps scheduling_notebook_def del: run_cell.simps run_cells.simps(2))
next
  case False
  note training = this
  show ?thesis
  proof (cases "wait_raises svc InferenceExecution")
    case True
    with training show ?thesis
      by (simp add: run_simps scheduling_notebook_def del: run_cell.simps run_cells.simps(2))
  next
    case False
    with training show ?thesis
      by (simp add: run_simps scheduling_notebook_def del: run_cell.simps run_cells.simps(2))
  qed
qed

lemma scheduling_checks:
  "all_checks_pipelines (run_notebook halt scheduling_notebook svc)
     (run_notebook halt scheduling_notebook all_succeed)"
  by (cases halt) (simp_all only: scheduling_halting scheduling_interactive)

lemma tuning_interactive:
  "all_checks (run_notebook False tuning_notebook svc)
     (run_notebook False tuning_notebook all_succeed)"
proof (cases "job_status svc TuningLog (Suc 0) = ''Completed''")
  case True
  note log = this
  show ?thesis
  proof (cases "job_status svc TuningLinear (Suc 0) = ''Completed''")
    case True
    with log show ?thesis
      by (simp add: run_simps tuning_notebook_def del: run_cell.simps run_cells.simps(2))
  next
    case False
    with log show ?thesis
      by (simp add: run_simps tuning_notebook_def del: run_cell.simps run_cells.simps(2))
  qed
next
  case False
  then show ?thesis
    by (simp add: run_simps tuning_notebook_def del: run_cell.simps run_cells.simps(2))
qed

lemma tuning_halting_fitted:
  assumes "\<not> wait_raises svc TuningLog" and "\<not> wait_raises svc TuningLinear"
  shows "all_checks (run_notebook True tuning_notebook svc)
           (run_notebook True tuning_notebook all_succeed)"
proof (cases "job_status svc TuningLog (Suc 0) = ''Completed''")
  case True
  note log = this
  show ?thesis
  proof (cases "job_status svc TuningLinear (Suc 0) = ''Completed''")
    case True
    with log assms show ?thesis
      by (simp add: run_simps tuning_notebook_def del: run_cell.simps run_cells.simps(2))
  next
    case False
    with log assms show ?thesis
      by (simp add: run_simps tuning_notebook_def del: run_cell.simps run_cells.simps(2))
  qed
next
  case False
  with assms show ?thesis
    by (simp add: run_simps tuning_notebook_def del: run_cell.simps run_cells.simps(2))
qed

lemma tuning_halting:
  "all_checks (run_notebook True tuning_notebook svc)
     (run_notebook True tuning_notebook all_succeed)"
proof (cases "wait_raises svc TuningLog")
  case True
  then show ?thesis
    by (simp add: run_simps tuning_notebook_def del: run_cell.simps run_cells.simps(2))
next
  case False
  note log = this
  show ?thesis
  proof (cases "wait_raises svc TuningLinear")
    case True
    with log show ?thesis
      by (simp add: run_simps tuning_notebook_def del: run_cell.simps run_cells.simps(2))
  next
    case False
    with log show ?thesis by (rule tuning_halting_fitted)
  qed
qed

lemma tuning_checks:
  "all_checks (run_notebook halt tuning_notebook svc)
     (run_notebook halt tuning_notebook all_succeed)"
  by (cases halt) (simp_all only: tuning_halting tuning_interactive)

text \<open>
  C7: however the cells are run and whatever the service answers, the operations of each
  notebook follow the order construct, submit, poll, analyze: what a submission consumes
  has been constructed before, every submission is followed by a wait or a describe of
  that job (the wait on the execution for a pipeline; for a tuning job the wait that fit
  performs, and the describe of the next cell when the run gets there), and tuning results
  are read and plotted only after a describe has returned "Completed" for the job, which
  the assertions of the tuning notebook enforce.
\<close>

theorem notebooks_construct_submit_poll_analyze:
  "construct_submit_poll_analyze (run_notebook halt scheduling_notebook svc)
   \<and> construct_submit_poll_analyze (run_notebook halt tuning_notebook svc)
   \<and> construct_submit_poll_analyze (run_notebook halt feature_selection_notebook svc)"
  using scheduling_checks [of halt svc] tuning_checks [of halt svc]
    feature_selection_checks [of halt svc]
  unfolding all_checks_pipelines_def all_checks_def by blast

theorem notebooks_construct_submit_poll_analyze_witness:
  "take 5 (drop 27 (run_notebook True tuning_notebook recorded_service))
     = [Describe TuningLog ''Completed'', Describe TuningLinear ''Completed'',
        Analytics TuningLog, Analytics TuningLinear, Plot [TuningLog, TuningLinear]]
   \<and> construct_submit_poll_analyze (run_notebook True tuning_notebook recorded_service)"
proof -
  have "take 5 (drop 27 (run_notebook True tuning_notebook recorded_service))
     = [Describe TuningLog ''Completed'', Describe TuningLinear ''Completed'',
        Analytics TuningLog, Analytics TuningLinear, Plot [TuningLog, TuningLinear]]"
    by (simp add: run_notebook_def stmt_defs run_cell_single run_cell_more run_cells_halting
          tuning_notebook_def recorded_service_def
          del: run_cell.simps run_cells.simps(2))
  with notebooks_construct_submit_poll_analyze [of True recorded_service] show ?thesis
    by (simp only: simp_thms)
qed



end
